theory Spec2Isabelle
  imports Main "HOL-Library.Sublist"
begin

section \<open>Python string operations used by the scripts\<close>

text \<open>
  The scripts of this repository are Python programs that read a text file, edit the
  text with \<^verbatim>\<open>str\<close> methods and write it back. A text is modelled as a
  \<^typ>\<open>string\<close> holding its UTF-8 form. Every character of the scripts' search and
  replacement literals is ASCII, and UTF-8 is self-synchronising, so \<^verbatim>\<open>in\<close>,
  \<^verbatim>\<open>replace\<close>, \<^verbatim>\<open>endswith\<close> and the split into lines act on the UTF-8
  form exactly as they act on Python's code points. The search operations are
  polymorphic in the character type.
\<close>

text \<open>\<^verbatim>\<open>s.startswith(p)\<close>.\<close>

definition startswith :: "'a list \<Rightarrow> 'a list \<Rightarrow> bool" where
  "startswith s p = (take (length p) s = p)"

text \<open>\<^verbatim>\<open>s.endswith(p)\<close>.\<close>

definition endswith :: "'a list \<Rightarrow> 'a list \<Rightarrow> bool" where
  "endswith s p = (if length p \<le> length s then drop (length s - length p) s = p else False)"

text \<open>\<^verbatim>\<open>sub in s\<close>: some position of \<open>s\<close> starts with \<open>sub\<close>.\<close>

fun str_in :: "'a list \<Rightarrow> 'a list \<Rightarrow> bool" where
  "str_in sub [] = (sub = [])"
| "str_in sub (c # cs) = (if startswith (c # cs) sub then True else str_in sub cs)"

text \<open>
  \<^verbatim>\<open>s.replace(old, new, count)\<close>: scanning from the left, each occurrence of
  \<open>old\<close> that does not overlap an earlier replaced one is replaced by \<open>new\<close>, at most
  \<open>count\<close> times; \<open>None\<close> is Python's default \<open>count = -1\<close> (no limit). An empty
  \<open>old\<close> matches before every character and at the end.
\<close>

fun dec_count :: "nat option \<Rightarrow> nat option" where
  "dec_count None = None"
| "dec_count (Some n) = Some (n - 1)"

function str_replace :: "'a list \<Rightarrow> 'a list \<Rightarrow> nat option \<Rightarrow> 'a list \<Rightarrow> 'a list" where
  "str_replace old new count s =
     (if count = Some 0 then s
      else case s of
        [] \<Rightarrow> (if old = [] then new else [])
      | c # cs \<Rightarrow>
          if old = [] then new @ c # str_replace old new (dec_count count) cs
          else if startswith s old
            then new @ str_replace old new (dec_count count) (drop (length old) s)
          else c # str_replace old new count cs)"
  by pat_completeness auto
termination
  by (relation "measure (\<lambda>(old, new, count, s). length s)") auto

declare str_replace.simps [simp del]

text \<open>
  The number of positions of \<open>s\<close> at which \<open>sub\<close> starts (occurrences may overlap).
\<close>

fun occurrences :: "'a list \<Rightarrow> 'a list \<Rightarrow> nat" where
  "occurrences sub [] = (if sub = [] then 1 else 0)"
| "occurrences sub (c # cs) =
     (if startswith (c # cs) sub then Suc (occurrences sub cs) else occurrences sub cs)"

text \<open>
  \<^verbatim>\<open>s.rstrip()\<close>, \<^verbatim>\<open>s.lstrip()\<close> and \<^verbatim>\<open>s.strip()\<close> remove the characters
  Python counts as whitespace from the ends of \<open>s\<close>: the ASCII ones (U+0009 to U+000D,
  U+001C to U+001F, U+0020) and U+0085, U+00A0, U+1680, U+2000 to U+200A, U+2028, U+2029,
  U+202F, U+205F, U+3000, listed here in UTF-8.
\<close>

definition whitespace :: "string list" where
  "whitespace =
     [[CHR 0x09], [CHR 0x0A], [CHR 0x0B], [CHR 0x0C], [CHR 0x0D],
      [CHR 0x1C], [CHR 0x1D], [CHR 0x1E], [CHR 0x1F], [CHR 0x20],
      [CHR 0xC2, CHR 0x85], [CHR 0xC2, CHR 0xA0], [CHR 0xE1, CHR 0x9A, CHR 0x80],
      [CHR 0xE2, CHR 0x80, CHR 0x80], [CHR 0xE2, CHR 0x80, CHR 0x81],
      [CHR 0xE2, CHR 0x80, CHR 0x82], [CHR 0xE2, CHR 0x80, CHR 0x83],
      [CHR 0xE2, CHR 0x80, CHR 0x84], [CHR 0xE2, CHR 0x80, CHR 0x85],
      [CHR 0xE2, CHR 0x80, CHR 0x86], [CHR 0xE2, CHR 0x80, CHR 0x87],
      [CHR 0xE2, CHR 0x80, CHR 0x88], [CHR 0xE2, CHR 0x80, CHR 0x89],
      [CHR 0xE2, CHR 0x80, CHR 0x8A], [CHR 0xE2, CHR 0x80, CHR 0xA8],
      [CHR 0xE2, CHR 0x80, CHR 0xA9], [CHR 0xE2, CHR 0x80, CHR 0xAF],
      [CHR 0xE2, CHR 0x81, CHR 0x9F], [CHR 0xE3, CHR 0x80, CHR 0x80]]"

text \<open>The whitespace character at the start, and at the end, of a text.\<close>

definition leading_space :: "string \<Rightarrow> string option" where
  "leading_space s = find (startswith s) whitespace"

definition trailing_space :: "string \<Rightarrow> string option" where
  "trailing_space s = find (endswith s) whitespace"

lemma whitespace_nonempty: "w \<in> set whitespace \<Longrightarrow> w \<noteq> []"
  by (auto simp: whitespace_def)

lemma trailing_space_shorter:
  assumes "trailing_space s = Some w"
  shows "length s - length w < length s"
proof -
  from assms have "w \<in> set whitespace" and "endswith s w"
    by (auto simp: trailing_space_def find_Some_iff)
  then have "w \<noteq> []" and "length w \<le> length s"
    by (auto simp: whitespace_nonempty endswith_def split: if_splits)
  then show ?thesis by (cases w) auto
qed

lemma leading_space_shorter:
  assumes "leading_space s = Some w"
  shows "length s - length w < length s"
proof -
  from assms have "w \<in> set whitespace" and "startswith s w"
    by (auto simp: leading_space_def find_Some_iff)
  then have "w \<noteq> []" and "take (length w) s = w"
    by (auto simp: whitespace_nonempty startswith_def)
  then have "s \<noteq> []" and "0 < length w" by auto
  then show ?thesis by (cases s) auto
qed

function rstrip :: "string \<Rightarrow> string" where
  "rstrip s =
     (case trailing_space s of
        None \<Rightarrow> s
      | Some w \<Rightarrow> rstrip (take (length s - length w) s))"
  by pat_completeness auto
termination
  by (relation "measure length") (auto simp: trailing_space_shorter)

function lstrip :: "string \<Rightarrow> string" where
  "lstrip s =
     (case leading_space s of
        None \<Rightarrow> s
      | Some w \<Rightarrow> lstrip (drop (length w) s))"
  by pat_completeness auto
termination
  by (relation "measure length") (auto simp: leading_space_shorter)

declare rstrip.simps [simp del] lstrip.simps [simp del]


text \<open>The characters (in UTF-8) of which whitespace consists.\<close>

definition whitespace_chars :: "char set" where
  "whitespace_chars = \<Union> (set ` set whitespace)"





section \<open>Files, console and exit status\<close>

text \<open>
  A script runs in a world: the files (a path has a text, or cannot be opened), the
  command line and the environment. Its outcome is the files it leaves, the texts it
  wrote (path and full new content, in order), the lines it printed to the console, one
  per \<^verbatim>\<open>print\<close> call, and how the process ended: \<^verbatim>\<open>exit(n)\<close> or the end of
  the script (\<open>Exit 0\<close>), or an exception nobody caught, which the interpreter reports
  with exit code 1.
\<close>

type_synonym path = string

type_synonym filesystem = "path \<rightharpoonup> string"

record world =
  files :: filesystem
  argv :: "string list"
  environ :: "string \<rightharpoonup> string"

datatype exception = FileNotFoundError path | IndexError | IndentationError

datatype exit_status = Exit nat | Uncaught exception

fun exit_code :: "exit_status \<Rightarrow> nat" where
  "exit_code (Exit n) = n"
| "exit_code (Uncaught e) = 1"

record outcome =
  files_after :: filesystem
  written :: "(path \<times> string) list"
  printed :: "string list"
  status :: exit_status

text \<open>The script ends by an uncaught exception, having written and printed nothing.\<close>

definition raised :: "world \<Rightarrow> exception \<Rightarrow> outcome" where
  "raised w e = \<lparr>files_after = files w, written = [], printed = [], status = Uncaught e\<rparr>"

text \<open>
  \<^verbatim>\<open>with open(p, 'w', encoding='utf-8') as f: f.write(content)\<close>, then the given
  \<^verbatim>\<open>print\<close> calls, then the end of the script.
\<close>

definition wrote :: "world \<Rightarrow> path \<Rightarrow> string \<Rightarrow> string list \<Rightarrow> outcome" where
  "wrote w p content out =
     \<lparr>files_after = (files w)(p \<mapsto> content), written = [(p, content)],
      printed = out, status = Exit 0\<rparr>"

text \<open>The script prints and ends with the given exit code without writing any file.\<close>

definition no_write :: "world \<Rightarrow> string list \<Rightarrow> nat \<Rightarrow> outcome" where
  "no_write w out code =
     \<lparr>files_after = files w, written = [], printed = out, status = Exit code\<rparr>"

text \<open>The marks the scripts print, in UTF-8: U+2705, U+274C and U+2713.\<close>

definition check_mark_button :: string where
  "check_mark_button = [CHR 0xE2, CHR 0x9C, CHR 0x85]"

definition cross_mark :: string where
  "cross_mark = [CHR 0xE2, CHR 0x9D, CHR 0x8C]"


section \<open>The scripts\<close>

text \<open>
  Each script is a function from the world to its outcome. The first step of every
  script is \<^verbatim>\<open>open(path, 'r', encoding='utf-8')\<close>, which raises
  \<^verbatim>\<open>FileNotFoundError\<close> when the file is not there. The text computation of a
  script is given a name of its own (\<open>_patch\<close>), so that it can be studied apart from
  the file it is applied to.
\<close>

subsection \<open>\<^verbatim>\<open>add_expense_notes_coins.py\<close>\<close>

definition add_expense_notes_coins_file_path :: path where
  \<open>add_expense_notes_coins_file_path = ''lib/database/database_helper.dart''\<close>

definition add_expense_notes_coins_old_line :: string where
  \<open>add_expense_notes_coins_old_line = ''        amount REAL NOT NULL,''\<close>

definition add_expense_notes_coins_new_lines :: string where
  \<open>add_expense_notes_coins_new_lines = ''        notes REAL NOT NULL,
        coins REAL NOT NULL,
        amount REAL NOT NULL,''\<close>

definition add_expense_notes_coins_patch :: "string \<Rightarrow> string" where
  "add_expense_notes_coins_patch content =
     str_replace add_expense_notes_coins_old_line add_expense_notes_coins_new_lines (Some 1) content"

definition add_expense_notes_coins :: "world \<Rightarrow> outcome" where
  \<open>add_expense_notes_coins w =
     (case files w add_expense_notes_coins_file_path of
        None \<Rightarrow> raised w (FileNotFoundError add_expense_notes_coins_file_path)
      | Some content \<Rightarrow>
          wrote w add_expense_notes_coins_file_path (add_expense_notes_coins_patch content)
            [check_mark_button @ '' Added notes and coins fields to expenses table!''])\<close>

subsection \<open>\<^verbatim>\<open>fix_db_path_production.py\<close>\<close>

definition fix_db_path_production_file_path :: path where
  \<open>fix_db_path_production_file_path = ''lib/database/database_helper.dart''\<close>

definition fix_db_path_production_old_text :: string where
  \<open>fix_db_path_production_old_text = ''    // Get the database file path
    String path = join(await getDatabasesPath(), \'a_one_bakeries.db\');''\<close>

definition fix_db_path_production_new_text :: string where
  \<open>fix_db_path_production_new_text = ''    // CRITICAL FIX: Use getApplicationDocumentsDirectory() for writable location
    // This ensures database is writable in both debug and release builds
    final directory = await getApplicationDocumentsDirectory();
    String path = join(directory.path, \'a_one_bakeries.db\');''\<close>

definition fix_db_path_production :: "world \<Rightarrow> outcome" where
  \<open>fix_db_path_production w =
     (case files w fix_db_path_production_file_path of
        None \<Rightarrow> raised w (FileNotFoundError fix_db_path_production_file_path)
      | Some content \<Rightarrow>
          if str_in fix_db_path_production_old_text content
          then wrote w fix_db_path_production_file_path
                 (str_replace fix_db_path_production_old_text fix_db_path_production_new_text
                    None content)
                 [check_mark_button @ '' Fixed database path to use writable directory!'']
          else no_write w
                 [cross_mark @ '' Could not find target location'',
                  ''Looking for:'' @ '' '' @ take 50 fix_db_path_production_old_text]
                 0)\<close>

subsection \<open>\<^verbatim>\<open>fix_vehicle_lookup.py\<close>\<close>






subsection \<open>\<^verbatim>\<open>make_notes_optional.py\<close>\<close>












subsection \<open>\<^verbatim>\<open>add_km_db_methods.py\<close>\<close>

definition add_km_db_methods_file_path :: path where
  \<open>add_km_db_methods_file_path = ''lib/database/database_helper.dart''\<close>

definition add_km_db_methods_guard :: string where
  \<open>add_km_db_methods_guard = ''km_record_model.dart''\<close>

definition add_km_db_methods_old_import :: string where
  \<open>add_km_db_methods_old_import = ''import \'package:a_one_bakeries_app/models/supplier_model.dart\';''\<close>

definition add_km_db_methods_new_imports :: string where
  \<open>add_km_db_methods_new_imports = ''import \'package:a_one_bakeries_app/models/supplier_model.dart\';\<newline>import \'package:a_one_bakeries_app/models/km_record_model.dart\';\<newline>import \'package:a_one_bakeries_app/models/service_record_model.dart\';''\<close>

definition km_methods :: string where
  \<open>km_methods = ''
  // ============================================================================
  // KM TRACKING OPERATIONS
  // ============================================================================

  /// Add a new KM record and update vehicle\'s current KM
  Future<int> addKmRecord(KmRecord record) async {
    final db = await database;
    
    int recordId = 0;
    await db.transaction((txn) async {
      // Insert the KM record
      recordId = await txn.insert(\'km_records\', record.toMap());
      
      // Update vehicle\'s current KM
      await txn.update(
        \'vehicles\',
        {
          \'currentKm\': record.kmReading,
          \'updatedAt\': DateTime.now().toIso8601String(),
        },
        where: \'id = ?\',
        whereArgs: [record.vehicleId],
      );
    });
    
    return recordId;
  }

  /// Get all KM records for a vehicle
  Future<List<KmRecord>> getVehicleKmRecords(int vehicleId) async {
    final db = await database;
    final maps = await db.query(
      \'km_records\',
      where: \'vehicleId = ?\',
      whereArgs: [vehicleId],
      orderBy: \'recordedDate DESC\',
    );
    return List.generate(maps.length, (i) => KmRecord.fromMap(maps[i]));
  }

  /// Get latest KM record for a vehicle
  Future<KmRecord?> getLatestKmRecord(int vehicleId) async {
    final db = await database;
    final maps = await db.query(
      \'km_records\',
      where: \'vehicleId = ?\',
      whereArgs: [vehicleId],
      orderBy: \'recordedDate DESC\',
      limit: 1,
    );
    if (maps.isEmpty) return null;
    return KmRecord.fromMap(maps.first);
  }

  /// Update vehicle\'s current KM
  Future<int> updateVehicleKm(int vehicleId, int newKm) async {
    final db = await database;
    return await db.update(
      \'vehicles\',
      {
        \'currentKm\': newKm,
        \'updatedAt\': DateTime.now().toIso8601String(),
      },
      where: \'id = ?\',
      whereArgs: [vehicleId],
    );
  }

  // ============================================================================
  // SERVICE RECORD OPERATIONS
  // ============================================================================

  /// Add a service record and update vehicle\'s service KM
  Future<int> addServiceRecord(ServiceRecord record) async {
    final db = await database;
    
    int recordId = 0;
    await db.transaction((txn) async {
      // Insert the service record
      recordId = await txn.insert(\'service_records\', record.toMap());
      
      // Get vehicle\'s service interval
      final vehicleMaps = await txn.query(
        \'vehicles\',
        where: \'id = ?\',
        whereArgs: [record.vehicleId],
      );
      
      if (vehicleMaps.isNotEmpty) {
        final serviceInterval = vehicleMaps.first[\'serviceIntervalKm\'] as int? ?? 10000;
        final nextServiceKm = record.serviceKm + serviceInterval;
        
        // Update vehicle\'s service KM
        await txn.update(
          \'vehicles\',
          {
            \'lastServiceKm\': record.serviceKm,
            \'nextServiceKm\': nextServiceKm,
            \'updatedAt\': DateTime.now().toIso8601String(),
          },
          where: \'id = ?\',
          whereArgs: [record.vehicleId],
        );
      }
    });
    
    return recordId;
  }

  /// Get all service records for a vehicle
  Future<List<ServiceRecord>> getVehicleServiceRecords(int vehicleId) async {
    final db = await database;
    final maps = await db.query(
      \'service_records\',
      where: \'vehicleId = ?\',
      whereArgs: [vehicleId],
      orderBy: \'serviceDate DESC\',
    );
    return List.generate(maps.length, (i) => ServiceRecord.fromMap(maps[i]));
  }

  /// Update vehicle\'s service interval
  Future<int> updateVehicleServiceInterval(int vehicleId, int intervalKm) async {
    final db = await database;
    
    // Get current lastServiceKm
    final maps = await db.query(
      \'vehicles\',
      where: \'id = ?\',
      whereArgs: [vehicleId],
    );
    
    if (maps.isEmpty) return 0;
    
    final lastServiceKm = maps.first[\'lastServiceKm\'] as int? ?? 0;
    final nextServiceKm = lastServiceKm + intervalKm;
    
    return await db.update(
      \'vehicles\',
      {
        \'serviceIntervalKm\': intervalKm,
        \'nextServiceKm\': nextServiceKm,
        \'updatedAt\': DateTime.now().toIso8601String(),
      },
      where: \'id = ?\',
      whereArgs: [vehicleId],
    );
  }

  /// Get vehicles due for service
  Future<List<Vehicle>> getVehiclesDueForService() async {
    final db = await database;
    final maps = await db.rawQuery(
      \'SELECT * FROM vehicles WHERE currentKm >= nextServiceKm ORDER BY currentKm DESC\'
    );
    return List.generate(maps.length, (i) => Vehicle.fromMap(maps[i]));
  }

  /// Get vehicles approaching service (within threshold KM)
  Future<List<Vehicle>> getVehiclesApproachingService(int thresholdKm) async {
    final db = await database;
    final maps = await db.rawQuery(
      \'SELECT * FROM vehicles WHERE (nextServiceKm - currentKm) <= ? AND (nextServiceKm - currentKm) > 0 ORDER BY (nextServiceKm - currentKm) ASC\',
      [thresholdKm]
    );
    return List.generate(maps.length, (i) => Vehicle.fromMap(maps[i]));
  }

  /// Get KM records within date range
  Future<List<KmRecord>> getKmRecordsByDateRange(DateTime startDate, DateTime endDate) async {
    final db = await database;
    final maps = await db.query(
      \'km_records\',
      where: \'recordedDate BETWEEN ? AND ?\',
      whereArgs: [startDate.toIso8601String(), endDate.toIso8601String()],
      orderBy: \'recordedDate DESC\',
    );
    return List.generate(maps.length, (i) => KmRecord.fromMap(maps[i]));
  }

  /// Get service records within date range
  Future<List<ServiceRecord>> getServiceRecordsByDateRange(DateTime startDate, DateTime endDate) async {
    final db = await database;
    final maps = await db.query(
      \'service_records\',
      where: \'serviceDate BETWEEN ? AND ?\',
      whereArgs: [startDate.toIso8601String(), endDate.toIso8601String()],
      orderBy: \'serviceDate DESC\',
    );
    return List.generate(maps.length, (i) => ServiceRecord.fromMap(maps[i]));
  }
''\<close>

definition add_km_db_methods_patch :: "string \<Rightarrow> string" where
  \<open>add_km_db_methods_patch content =
     (let content =
            (if \<not> str_in add_km_db_methods_guard content
             then str_replace add_km_db_methods_old_import add_km_db_methods_new_imports
                    None content
             else content);
          content = rstrip content
      in if endswith content ''}''
         then butlast content @ km_methods @ ''\<newline>}''
         else content @ km_methods)\<close>

definition add_km_db_methods :: "world \<Rightarrow> outcome" where
  \<open>add_km_db_methods w =
     (case files w add_km_db_methods_file_path of
        None \<Rightarrow> raised w (FileNotFoundError add_km_db_methods_file_path)
      | Some content \<Rightarrow>
          wrote w add_km_db_methods_file_path (add_km_db_methods_patch content)
            [check_mark_button @ '' Added KM tracking methods to database_helper.dart'',
             ''   - addKmRecord() - Add KM record and update vehicle'',
             ''   - getVehicleKmRecords() - Get all KM records for vehicle'',
             ''   - addServiceRecord() - Add service and update next service KM'',
             ''   - getVehicleServiceRecords() - Get service history'',
             ''   - getVehiclesDueForService() - Get vehicles needing service'',
             ''   - getVehiclesApproachingService() - Get vehicles approaching service'',
             ''   - And more...''])\<close>

subsection \<open>\<^verbatim>\<open>remove_duplicates.py\<close>\<close>


definition km_marker :: string where
  \<open>km_marker = ''KM TRACKING OPERATIONS''\<close>

definition add_km_record_marker :: string where
  \<open>add_km_record_marker = ''Future<int> addKmRecord''\<close>


text \<open>
  The second loop, \<^verbatim>\<open>for i in range(first_km_section + 1, len(lines))\<close>. Its test
  reads the variable \<^verbatim>\<open>line\<close>, which the second loop never assigns: it still holds
  the line at which the first loop broke.
\<close>

function second_km_scan :: "string \<Rightarrow> string list \<Rightarrow> nat \<Rightarrow> nat option" where
  "second_km_scan line lines i =
     (if i < length lines
      then if str_in km_marker line \<or> str_in add_km_record_marker (lines ! i) then Some i
           else second_km_scan line lines (Suc i)
      else None)"
  by pat_completeness auto
termination
  by (relation "measure (\<lambda>(line, lines, i). length lines - i)") auto



subsection \<open>\<^verbatim>\<open>fix_expenses_table.py\<close>\<close>










subsection \<open>\<^verbatim>\<open>update_db_coins.py\<close>\<close>













subsection \<open>\<^verbatim>\<open>add_cash_breakdown_method.py\<close>\<close>





subsection \<open>\<^verbatim>\<open>add_settings_icon.py\<close>\<close>





subsection \<open>\<^verbatim>\<open>final_dashboard_fix.py\<close>\<close>





subsection \<open>\<^verbatim>\<open>update_cash_breakdown.py\<close>\<close>






subsection \<open>\<^verbatim>\<open>final_db_fix.py\<close>\<close>







subsection \<open>\<^verbatim>\<open>update_db_v6.py\<close>\<close>








subsection \<open>\<^verbatim>\<open>update_vehicle_cards_km.py\<close>\<close>










subsection \<open>\<^verbatim>\<open>update_vehicle_screen_km.py\<close>\<close>








subsection \<open>\<^verbatim>\<open>add_dashboard_breakdown.py\<close>\<close>







subsection \<open>\<^verbatim>\<open>simple_db_fix.py\<close>\<close>





subsection \<open>\<^verbatim>\<open>add_km_to_vehicle.py\<close>\<close>







subsection \<open>Scripts that patch two files\<close>


subsection \<open>\<^verbatim>\<open>add_final_reports.py\<close>\<close>










subsection \<open>\<^verbatim>\<open>fix_reports.py\<close>\<close>










subsection \<open>\<^verbatim>\<open>fix_new_reports.py\<close>\<close>









subsection \<open>Loops over the lines of a file\<close>




subsection \<open>\<^verbatim>\<open>add_dashboard_card.py\<close>\<close>







subsection \<open>\<^verbatim>\<open>add_settings_method.py\<close>\<close>





subsection \<open>\<^verbatim>\<open>fix_vehicles_table.py\<close>\<close>






subsection \<open>\<^verbatim>\<open>update_expense_schema.py\<close>\<close>


section \<open>Facts about the string operations\<close>

text \<open>
  \<open>startswith\<close> and \<open>str_in\<close> are the prefix and the contiguous-sublist relations of
  the list library.
\<close>

lemma startswith_prefix: "startswith s p = prefix p s"
  unfolding startswith_def
  by (metis append_take_drop_id append_eq_conv_conj prefix_def)

lemma str_in_sublist: "str_in sub s = sublist sub s"
proof (induction s)
  case Nil
  then show ?case by simp
next
  case (Cons c cs)
  then show ?case by (simp add: startswith_prefix sublist_Cons_right)
qed

lemma str_in_Nil_left [simp]: "str_in [] s"
  by (simp add: str_in_sublist)

lemma str_in_append: "str_in sub s \<Longrightarrow> str_in sub (xs @ s @ ys)"
  by (metis str_in_sublist sublist_order.order_trans sublist_appendI)

lemma str_in_self [simp]: "str_in s s"
  by (simp add: str_in_sublist)

lemma str_replace_hit:
  assumes "count \<noteq> Some 0" and "old \<noteq> []" and "startswith (c # cs) old"
  shows "str_replace old new count (c # cs)
           = new @ str_replace old new (dec_count count) (drop (length old) (c # cs))"
  using assms by (simp add: str_replace.simps [of old new count "c # cs"])

lemma str_replace_miss:
  assumes "count \<noteq> Some 0" and "old \<noteq> []" and "\<not> startswith (c # cs) old"
  shows "str_replace old new count (c # cs) = c # str_replace old new count cs"
  using assms by (simp add: str_replace.simps [of old new count "c # cs"])

lemma butlast_last_append: "old \<noteq> [] \<Longrightarrow> butlast old @ last old # post = old @ post"
  by (metis append_butlast_last_id append_Cons append_Nil append_assoc)

lemma str_replace_absent: "\<not> str_in old s \<Longrightarrow> str_replace old new count s = s"
proof (induction s)
  case Nil
  then show ?case by (auto simp: str_replace.simps [of _ _ _ "[]"])
next
  case (Cons c cs)
  from Cons.prems have "old \<noteq> []"
    using str_in_Nil_left by blast
  moreover from Cons.prems have "\<not> startswith (c # cs) old" and "\<not> str_in old cs"
    by (auto split: if_splits)
  ultimately show ?case
    using Cons.IH by (cases "count = Some 0") (simp_all add: str_replace_miss str_replace.simps [of _ _ "Some 0"])
qed

lemma startswith_early:
  assumes "old \<noteq> []" and "startswith (pre @ old @ post) old" and "pre \<noteq> []"
  shows "startswith (pre @ butlast old) old"
proof -
  have "prefix old ((pre @ butlast old) @ (last old # post))"
    using assms(1,2) by (simp add: startswith_prefix butlast_last_append)
  moreover have "length old \<le> length (pre @ butlast old)"
    using assms(1,3) by (cases pre) auto
  ultimately show ?thesis
    unfolding startswith_prefix
    by (metis prefix_length_prefix prefixI)
qed

lemma str_replace_leftmost:
  assumes "old \<noteq> []" and "\<not> str_in old (pre @ butlast old)" and "count \<noteq> Some 0"
  shows "str_replace old new count (pre @ old @ post)
           = pre @ new @ str_replace old new (dec_count count) post"
  using assms(2)
proof (induction pre)
  case Nil
  obtain c cs where old: "old = c # cs" using assms(1) by (cases old) auto
  have "startswith (c # cs @ post) old" by (simp add: startswith_def old)
  then have "str_replace old new count (c # cs @ post)
      = new @ str_replace old new (dec_count count) (drop (length old) (c # cs @ post))"
    using assms(1,3) by (simp add: str_replace_hit)
  then show ?case by (simp add: old)
next
  case (Cons a pre)
  have no: "\<not> startswith ((a # pre) @ old @ post) old"
  proof
    assume "startswith ((a # pre) @ old @ post) old"
    then have "startswith ((a # pre) @ butlast old) old"
      using startswith_early [OF assms(1), of "a # pre" post] by simp
    then show False using Cons.prems by simp
  qed
  have "\<not> str_in old (pre @ butlast old)"
    using Cons.prems by (simp split: if_splits)
  then have "str_replace old new count (pre @ old @ post)
               = pre @ new @ str_replace old new (dec_count count) post"
    by (rule Cons.IH)
  then show ?case
    using no assms(1,3) by (simp add: str_replace_miss)
qed

lemma str_in_leftmost:
  assumes "old \<noteq> []" and "str_in old s"
  shows "\<exists>pre post. s = pre @ old @ post \<and> \<not> str_in old (pre @ butlast old)"
  using assms(2)
proof (induction s)
  case Nil
  then show ?case using assms(1) by simp
next
  case (Cons c cs)
  show ?case
  proof (cases "startswith (c # cs) old")
    case True
    then obtain post where "c # cs = old @ post"
      by (auto simp: startswith_prefix prefix_def)
    moreover have "\<not> str_in old (butlast old)"
      using assms(1) by (metis str_in_sublist sublist_length_le length_butlast
          diff_less length_greater_0_conv less_one not_le)
    ultimately show ?thesis by (metis append_Nil)
  next
    case False
    then have "str_in old cs" using Cons.prems by simp
    then obtain pre post where s: "cs = pre @ old @ post"
      and n: "\<not> str_in old (pre @ butlast old)"
      using Cons.IH by blast
    have "\<not> startswith ((c # pre) @ butlast old) old"
    proof
      assume "startswith ((c # pre) @ butlast old) old"
      then have "prefix old ((c # pre) @ butlast old)" by (simp add: startswith_prefix)
      then have "prefix old ((c # pre) @ butlast old @ (last old # post))"
        by (metis append_assoc prefix_prefix)
      then have "startswith (c # cs) old"
        using assms(1) s by (simp add: startswith_prefix butlast_last_append)
      with False show False ..
    qed
    with n have "\<not> str_in old ((c # pre) @ butlast old)" by simp
    with s show ?thesis by (metis append_Cons)
  qed
qed

lemma str_replace_first_length:
  assumes "old \<noteq> []" and "str_in old s"
  shows "length (str_replace old new (Some 1) s) + length old = length s + length new"
proof -
  obtain pre post where s: "s = pre @ old @ post" and n: "\<not> str_in old (pre @ butlast old)"
    using str_in_leftmost [OF assms] by blast
  have "str_replace old new (Some 1) s = pre @ new @ str_replace old new (dec_count (Some 1)) post"
    unfolding s using assms(1) n by (rule str_replace_leftmost) simp
  then show ?thesis by (simp add: s str_replace.simps [of _ _ "Some 0"])
qed

lemma str_replace_first_keeps:
  assumes "old \<noteq> []" and "str_in old s" and "str_in x new"
  shows "str_in x (str_replace old new (Some 1) s)"
proof -
  obtain pre post where s: "s = pre @ old @ post" and n: "\<not> str_in old (pre @ butlast old)"
    using str_in_leftmost [OF assms(1,2)] by blast
  have "str_replace old new (Some 1) s = pre @ new @ str_replace old new (dec_count (Some 1)) post"
    unfolding s using assms(1) n by (rule str_replace_leftmost) simp
  then show ?thesis using assms(3) by (simp add: str_in_append)
qed

lemma occurrences_pos: "0 < occurrences sub s \<Longrightarrow> str_in sub s"
  by (induction s) (auto split: if_splits)

lemma str_replace_empty_old:
  "count \<noteq> Some 0 \<Longrightarrow> str_in new (str_replace [] new count s)"
  by (cases s) (simp_all add: str_replace.simps [of "[]"] str_in_sublist)

lemma str_replace_roundtrip:
  assumes "str_in old s" and "count \<noteq> Some 0"
  shows "str_in new (str_replace old new count s)"
proof (cases "old = []")
  case True
  then show ?thesis using assms(2) by (simp add: str_replace_empty_old)
next
  case False
  obtain pre post where s: "s = pre @ old @ post" and n: "\<not> str_in old (pre @ butlast old)"
    using str_in_leftmost [OF False assms(1)] by blast
  have "str_replace old new count s = pre @ new @ str_replace old new (dec_count count) post"
    unfolding s using False n assms(2) by (rule str_replace_leftmost)
  then show ?thesis by (simp add: str_in_append)
qed




lemma second_km_scan_range:
  "second_km_scan line ls i = Some j \<Longrightarrow> i \<le> j \<and> j < length ls"
proof (induction line ls i rule: second_km_scan.induct)
  case (1 line lines i)
  then show ?case
    by (auto simp: second_km_scan.simps [of line lines i] split: if_splits)
qed

text \<open>Stripping removes whitespace characters only.\<close>

lemma endswith_append: "endswith s w \<Longrightarrow> s = take (length s - length w) s @ w"
  by (auto simp: endswith_def split: if_splits) (metis append_take_drop_id)


lemma rstrip_decompose: "\<exists>t. s = rstrip s @ t \<and> set t \<subseteq> whitespace_chars"
proof (induction s rule: rstrip.induct)
  case (1 s)
  show ?case
  proof (cases "trailing_space s")
    case None
    then show ?thesis by (simp add: rstrip.simps [of s])
  next
    case (Some w)
    then have w: "w \<in> set whitespace" and e: "endswith s w"
      by (auto simp: trailing_space_def find_Some_iff)
    from "1.IH" [OF Some] obtain t
      where t: "take (length s - length w) s = rstrip (take (length s - length w) s) @ t"
        and ws: "set t \<subseteq> whitespace_chars"
      by blast
    have r: "rstrip s = rstrip (take (length s - length w) s)"
      using Some by (simp add: rstrip.simps [of s])
    have "s = rstrip s @ (t @ w)"
      using endswith_append [OF e] t r by (metis append_assoc)
    moreover have "set (t @ w) \<subseteq> whitespace_chars"
      using ws w by (auto simp: whitespace_chars_def)
    ultimately show ?thesis by blast
  qed
qed



















section \<open>Running a patch twice\<close>

lemma old_line_in_new_lines:
  "str_in add_expense_notes_coins_old_line add_expense_notes_coins_new_lines"
  by (simp add: add_expense_notes_coins_old_line_def add_expense_notes_coins_new_lines_def
      startswith_def)

lemma old_line_length: "length add_expense_notes_coins_old_line = 29"
  by (simp add: add_expense_notes_coins_old_line_def)

lemma new_lines_length: "length add_expense_notes_coins_new_lines = 87"
  by (simp add: add_expense_notes_coins_new_lines_def)

lemma old_line_nonempty: "add_expense_notes_coins_old_line \<noteq> []"
  using old_line_length by auto

lemma add_expense_notes_coins_patch_absent:
  "\<not> str_in add_expense_notes_coins_old_line c \<Longrightarrow> add_expense_notes_coins_patch c = c"
  by (simp add: add_expense_notes_coins_patch_def str_replace_absent)

lemma add_expense_notes_coins_patch_grows:
  assumes "str_in add_expense_notes_coins_old_line c"
  shows "length (add_expense_notes_coins_patch c) = length c + 58"
  using str_replace_first_length [OF old_line_nonempty assms,
      of add_expense_notes_coins_new_lines]
  by (simp add: add_expense_notes_coins_patch_def old_line_length new_lines_length)

lemma add_expense_notes_coins_patch_keeps_locator:
  assumes "str_in add_expense_notes_coins_old_line c"
  shows "str_in add_expense_notes_coins_old_line (add_expense_notes_coins_patch c)"
  unfolding add_expense_notes_coins_patch_def
  using old_line_nonempty assms old_line_in_new_lines by (rule str_replace_first_keeps)

text \<open>
  C1, as the claim states it, fails: on the content of the spec's own example, the
  locator line alone, the second run of the transformation of
  \<^verbatim>\<open>add_expense_notes_coins.py\<close> changes the output of the first.
\<close>

theorem add_expense_notes_coins_not_idempotent:
  "add_expense_notes_coins_patch (add_expense_notes_coins_patch add_expense_notes_coins_old_line)
     \<noteq> add_expense_notes_coins_patch add_expense_notes_coins_old_line"
  by (simp add: add_expense_notes_coins_patch_def add_expense_notes_coins_old_line_def
      add_expense_notes_coins_new_lines_def str_replace.simps startswith_def)

text \<open>
  C1, amended. The script writes the transformed content back and a second run
  transforms the output of the first. The transformation is idempotent exactly on the
  contents without the locator, which it returns unchanged. Where the locator occurs, a
  run makes the content 58 characters longer (the two inserted lines) and the locator
  still occurs in the result, so the next run inserts the lines again. The script has no
  changed flag: both runs print the same line.
\<close>

theorem add_expense_notes_coins_idempotent_iff:
  assumes "files w add_expense_notes_coins_file_path = Some c"
  shows "written (add_expense_notes_coins w)
           = [(add_expense_notes_coins_file_path, add_expense_notes_coins_patch c)]
       \<and> written (add_expense_notes_coins
                    (w\<lparr>files := files_after (add_expense_notes_coins w)\<rparr>))
           = [(add_expense_notes_coins_file_path,
               add_expense_notes_coins_patch (add_expense_notes_coins_patch c))]
       \<and> printed (add_expense_notes_coins
                    (w\<lparr>files := files_after (add_expense_notes_coins w)\<rparr>))
           = printed (add_expense_notes_coins w)
       \<and> (add_expense_notes_coins_patch (add_expense_notes_coins_patch c)
             = add_expense_notes_coins_patch c)
           = (\<not> str_in add_expense_notes_coins_old_line c)
       \<and> (if str_in add_expense_notes_coins_old_line c
           then length (add_expense_notes_coins_patch c) = length c + 58
              \<and> str_in add_expense_notes_coins_old_line (add_expense_notes_coins_patch c)
           else add_expense_notes_coins_patch c = c)"
proof -
  have run: "written (add_expense_notes_coins w)
               = [(add_expense_notes_coins_file_path, add_expense_notes_coins_patch c)]"
    and after: "files_after (add_expense_notes_coins w) add_expense_notes_coins_file_path
               = Some (add_expense_notes_coins_patch c)"
    using assms by (simp_all add: add_expense_notes_coins_def wrote_def)
  have again: "written (add_expense_notes_coins
                    (w\<lparr>files := files_after (add_expense_notes_coins w)\<rparr>))
           = [(add_expense_notes_coins_file_path,
               add_expense_notes_coins_patch (add_expense_notes_coins_patch c))]"
    using after by (simp add: add_expense_notes_coins_def [of "w\<lparr>files := _\<rparr>"] wrote_def)
  have same: "printed (add_expense_notes_coins
                    (w\<lparr>files := files_after (add_expense_notes_coins w)\<rparr>))
           = printed (add_expense_notes_coins w)"
    using after assms
    by (simp add: add_expense_notes_coins_def [of "w\<lparr>files := _\<rparr>"]
        add_expense_notes_coins_def [of w] wrote_def)
  have iff: "(add_expense_notes_coins_patch (add_expense_notes_coins_patch c)
             = add_expense_notes_coins_patch c)
           = (\<not> str_in add_expense_notes_coins_old_line c)"
  proof (cases "str_in add_expense_notes_coins_old_line c")
    case True
    then have "length (add_expense_notes_coins_patch (add_expense_notes_coins_patch c))
                 = length (add_expense_notes_coins_patch c) + 58"
      by (intro add_expense_notes_coins_patch_grows add_expense_notes_coins_patch_keeps_locator)
    then have "add_expense_notes_coins_patch (add_expense_notes_coins_patch c)
                 \<noteq> add_expense_notes_coins_patch c"
      by auto
    with True show ?thesis by simp
  next
    case False
    then show ?thesis by (simp add: add_expense_notes_coins_patch_absent)
  qed
  have shape: "if str_in add_expense_notes_coins_old_line c
           then length (add_expense_notes_coins_patch c) = length c + 58
              \<and> str_in add_expense_notes_coins_old_line (add_expense_notes_coins_patch c)
           else add_expense_notes_coins_patch c = c"
    by (simp add: add_expense_notes_coins_patch_absent add_expense_notes_coins_patch_grows
        add_expense_notes_coins_patch_keeps_locator)
  from run again same iff shape show ?thesis by blast
qed

text \<open>
  The theorem at two files: one holding the locator line alone (the second run differs
  from the first) and an empty one (both runs leave it empty).
\<close>

theorem add_expense_notes_coins_idempotent_iff_witness:
  "files \<lparr>files = [add_expense_notes_coins_file_path \<mapsto> add_expense_notes_coins_old_line],
          argv = [], environ = Map.empty\<rparr> add_expense_notes_coins_file_path
     = Some add_expense_notes_coins_old_line
   \<and> str_in add_expense_notes_coins_old_line add_expense_notes_coins_old_line
   \<and> add_expense_notes_coins_patch (add_expense_notes_coins_patch add_expense_notes_coins_old_line)
       \<noteq> add_expense_notes_coins_patch add_expense_notes_coins_old_line
   \<and> length (add_expense_notes_coins_patch add_expense_notes_coins_old_line) = 87
   \<and> files \<lparr>files = [add_expense_notes_coins_file_path \<mapsto> ''''],
          argv = [], environ = Map.empty\<rparr> add_expense_notes_coins_file_path = Some ''''
   \<and> \<not> str_in add_expense_notes_coins_old_line ''''
   \<and> add_expense_notes_coins_patch (add_expense_notes_coins_patch '''')
       = add_expense_notes_coins_patch ''''
   \<and> add_expense_notes_coins_patch '''' = ''''"
  using add_expense_notes_coins_idempotent_iff
          [of "\<lparr>files = [add_expense_notes_coins_file_path \<mapsto> add_expense_notes_coins_old_line],
                argv = [], environ = Map.empty\<rparr>" add_expense_notes_coins_old_line]
        add_expense_notes_coins_idempotent_iff
          [of "\<lparr>files = [add_expense_notes_coins_file_path \<mapsto> ''''],
                argv = [], environ = Map.empty\<rparr>" "''''"]
  by (simp add: old_line_length old_line_nonempty)

section \<open>The guard of \<^verbatim>\<open>add_km_db_methods.py\<close>\<close>

lemma km_methods_start: "take 4 km_methods = ''\<newline>  /''"
  by (simp add: km_methods_def)

lemma km_methods_hd: "\<exists>rest. km_methods = CHR 0x0A # rest"
proof -
  have "km_methods = take 4 km_methods @ drop 4 km_methods" by simp
  then show ?thesis unfolding km_methods_start by (metis append_Cons)
qed

lemma km_methods_not_blank: "\<not> set km_methods \<subseteq> whitespace_chars"
proof -
  have "CHR ''/'' \<in> set (take 4 km_methods)" by (simp add: km_methods_start)
  then have "CHR ''/'' \<in> set km_methods" by (rule in_set_takeD)
  moreover have "CHR ''/'' \<notin> whitespace_chars"
    by (simp add: whitespace_chars_def whitespace_def)
  ultimately show ?thesis by auto
qed

lemma endswith_brace: "endswith s ''}'' \<Longrightarrow> s = butlast s @ ''}''"
  using endswith_append [of s "''}''"] by (simp add: butlast_conv_take)

lemma add_km_db_methods_patch_guarded:
  assumes "str_in add_km_db_methods_guard c"
  shows "add_km_db_methods_patch c
           = (if endswith (rstrip c) ''}'' then butlast (rstrip c) @ km_methods @ ''\<newline>}''
              else rstrip c @ km_methods)"
  using assms by (simp add: add_km_db_methods_patch_def)

lemma add_km_db_methods_patch_changes:
  assumes "str_in add_km_db_methods_guard c"
  shows "add_km_db_methods_patch c \<noteq> c"
proof
  assume same: "add_km_db_methods_patch c = c"
  obtain t where t: "c = rstrip c @ t" and blank: "set t \<subseteq> whitespace_chars"
    using rstrip_decompose by blast
  obtain rest where rest: "km_methods = CHR 0x0A # rest"
    using km_methods_hd by blast
  show False
  proof (cases "endswith (rstrip c) ''}''")
    case True
    then have "butlast (rstrip c) @ km_methods @ ''\<newline>}'' = c"
      using same assms by (simp add: add_km_db_methods_patch_guarded)
    also have "c = (butlast (rstrip c) @ ''}'') @ t"
      using t endswith_brace [OF True] by simp
    finally have "km_methods @ ''\<newline>}'' = ''}'' @ t" by simp
    then show False by (simp add: rest)
  next
    case False
    then have "rstrip c @ km_methods = c"
      using same assms by (simp add: add_km_db_methods_patch_guarded)
    then have "rstrip c @ km_methods = rstrip c @ t" using t by simp
    then have "km_methods = t" by simp
    then show False using blank km_methods_not_blank by simp
  qed
qed

lemma add_km_db_methods_patch_appends:
  "str_in km_methods (add_km_db_methods_patch c)"
proof -
  have a: "str_in km_methods (xs @ km_methods @ ys)" for xs ys :: string
    by (rule str_in_append) simp
  have b: "str_in km_methods (xs @ km_methods)" for xs :: string
    using a [of xs "[]"] by simp
  show ?thesis
    unfolding add_km_db_methods_patch_def Let_def by (simp add: a b)
qed

lemma rstrip_Some:
  "trailing_space s = Some w \<Longrightarrow> rstrip s = rstrip (take (length s - length w) s)"
  by (simp add: rstrip.simps [of s])

lemma rstrip_None: "trailing_space s = None \<Longrightarrow> rstrip s = s"
  by (simp add: rstrip.simps [of s])

text \<open>
  C2, as the claim states it, fails: on a file that already contains the guard
  \<^verbatim>\<open>km_record_model.dart\<close>, \<^verbatim>\<open>add_km_db_methods.py\<close> does not return the
  content unchanged. The guard stands before the import replacement only; the block of
  KM methods is put before the final closing brace all the same.
\<close>

theorem add_km_db_methods_guard_does_not_stop:
  "str_in add_km_db_methods_guard
     ''// needs km_record_model.dart\<newline>class DatabaseHelper {\<newline>}\<newline>''
   \<and> add_km_db_methods_patch
       ''// needs km_record_model.dart\<newline>class DatabaseHelper {\<newline>}\<newline>''
     = ''// needs km_record_model.dart\<newline>class DatabaseHelper {\<newline>''
         @ km_methods @ ''\<newline>}''
   \<and> add_km_db_methods_patch
       ''// needs km_record_model.dart\<newline>class DatabaseHelper {\<newline>}\<newline>''
     \<noteq> ''// needs km_record_model.dart\<newline>class DatabaseHelper {\<newline>}\<newline>''"
proof -
  have guard: "str_in add_km_db_methods_guard
     ''// needs km_record_model.dart\<newline>class DatabaseHelper {\<newline>}\<newline>''"
    by (simp add: add_km_db_methods_guard_def startswith_def)
  have "trailing_space
      ''// needs km_record_model.dart\<newline>class DatabaseHelper {\<newline>}\<newline>''
      = Some ''\<newline>''"
    by (simp add: trailing_space_def whitespace_def endswith_def)
  moreover have "trailing_space
      ''// needs km_record_model.dart\<newline>class DatabaseHelper {\<newline>}'' = None"
    by (simp add: trailing_space_def whitespace_def endswith_def)
  ultimately have stripped: "rstrip
      ''// needs km_record_model.dart\<newline>class DatabaseHelper {\<newline>}\<newline>''
      = ''// needs km_record_model.dart\<newline>class DatabaseHelper {\<newline>}''"
    by (simp add: rstrip_Some rstrip_None)
  have "add_km_db_methods_patch
       ''// needs km_record_model.dart\<newline>class DatabaseHelper {\<newline>}\<newline>''
     = ''// needs km_record_model.dart\<newline>class DatabaseHelper {\<newline>''
         @ km_methods @ ''\<newline>}''"
    unfolding add_km_db_methods_patch_guarded [OF guard] stripped
    by (simp add: endswith_def)
  with guard add_km_db_methods_patch_changes [OF guard] show ?thesis by blast
qed

text \<open>
  C2, amended. When the guard \<^verbatim>\<open>km_record_model.dart\<close> is already in the content,
  \<^verbatim>\<open>add_km_db_methods.py\<close> skips the replacement of the import line, and nothing
  else: it strips the whitespace at the end of the content and puts the block of KM
  methods before the final closing brace (or at the end, when the content does not end
  with one). The content it writes contains the block and is never the content it read.
\<close>

theorem add_km_db_methods_guard_present:
  assumes "files w add_km_db_methods_file_path = Some c"
    and "str_in add_km_db_methods_guard c"
  shows "written (add_km_db_methods w)
           = [(add_km_db_methods_file_path, add_km_db_methods_patch c)]
       \<and> add_km_db_methods_patch c
           = (if endswith (rstrip c) ''}''
              then butlast (rstrip c) @ km_methods @ ''\<newline>}''
              else rstrip c @ km_methods)
       \<and> str_in km_methods (add_km_db_methods_patch c)
       \<and> add_km_db_methods_patch c \<noteq> c"
  using assms add_km_db_methods_patch_guarded [of c] add_km_db_methods_patch_changes [of c]
    add_km_db_methods_patch_appends [of c]
  by (simp add: add_km_db_methods_def wrote_def)

text \<open>The theorem at a file that names the guard already.\<close>

theorem add_km_db_methods_guard_present_witness:
  "files \<lparr>files = [add_km_db_methods_file_path \<mapsto>
            ''// needs km_record_model.dart\<newline>class DatabaseHelper {\<newline>}\<newline>''],
          argv = [], environ = Map.empty\<rparr> add_km_db_methods_file_path
     = Some ''// needs km_record_model.dart\<newline>class DatabaseHelper {\<newline>}\<newline>''
   \<and> str_in add_km_db_methods_guard
       ''// needs km_record_model.dart\<newline>class DatabaseHelper {\<newline>}\<newline>''
   \<and> written (add_km_db_methods
        \<lparr>files = [add_km_db_methods_file_path \<mapsto>
            ''// needs km_record_model.dart\<newline>class DatabaseHelper {\<newline>}\<newline>''],
          argv = [], environ = Map.empty\<rparr>)
       = [(add_km_db_methods_file_path, add_km_db_methods_patch
            ''// needs km_record_model.dart\<newline>class DatabaseHelper {\<newline>}\<newline>'')]
   \<and> add_km_db_methods_patch
       ''// needs km_record_model.dart\<newline>class DatabaseHelper {\<newline>}\<newline>''
     \<noteq> ''// needs km_record_model.dart\<newline>class DatabaseHelper {\<newline>}\<newline>''"
proof -
  have inside: "files \<lparr>files = [add_km_db_methods_file_path \<mapsto>
            ''// needs km_record_model.dart\<newline>class DatabaseHelper {\<newline>}\<newline>''],
          argv = [], environ = Map.empty\<rparr> add_km_db_methods_file_path
     = Some ''// needs km_record_model.dart\<newline>class DatabaseHelper {\<newline>}\<newline>''"
    by simp
  have guard: "str_in add_km_db_methods_guard
     ''// needs km_record_model.dart\<newline>class DatabaseHelper {\<newline>}\<newline>''"
    by (simp add: add_km_db_methods_guard_def startswith_def)
  from inside guard add_km_db_methods_guard_present [OF inside guard]
  show ?thesis by blast
qed

section \<open>Searching for the replacement after a patch\<close>

lemma old_text_nonempty: "fix_db_path_production_old_text \<noteq> []"
  by (simp add: fix_db_path_production_old_text_def)

text \<open>
  C5. Whenever the locator \<open>L\<close> occurs exactly once in a text, the replacement \<open>R\<close>
  occurs in the text that \<^verbatim>\<open>replace(L, R)\<close> returns. For
  \<^verbatim>\<open>fix_db_path_production.py\<close>: when the old database-path snippet occurs exactly
  once in the file, the script writes the file, and the content it writes contains the
  new \<^verbatim>\<open>getApplicationDocumentsDirectory\<close> snippet.
\<close>

theorem fix_db_path_production_roundtrip:
  assumes "occurrences L s = 1"
    and "files w fix_db_path_production_file_path = Some c"
    and "occurrences fix_db_path_production_old_text c = 1"
  shows "str_in R (str_replace L R None s)
       \<and> (\<exists>out. written (fix_db_path_production w) = [(fix_db_path_production_file_path, out)]
              \<and> files_after (fix_db_path_production w) fix_db_path_production_file_path
                  = Some out
              \<and> str_in fix_db_path_production_new_text out)"
proof -
  have "str_in L s" using assms(1) by (simp add: occurrences_pos)
  then have general: "str_in R (str_replace L R None s)"
    by (simp add: str_replace_roundtrip)
  have found: "str_in fix_db_path_production_old_text c"
    using assms(3) by (simp add: occurrences_pos)
  then have "str_in fix_db_path_production_new_text
               (str_replace fix_db_path_production_old_text fix_db_path_production_new_text
                  None c)"
    by (simp add: str_replace_roundtrip)
  with found assms(2) general show ?thesis
    by (simp add: fix_db_path_production_def wrote_def)
qed

text \<open>
  The theorem at the file that holds the old snippet and nothing else: the script writes
  the new snippet. The general part at a short text.
\<close>

theorem fix_db_path_production_roundtrip_witness:
  "occurrences ''ab'' ''xaby'' = 1
   \<and> str_in ''R'' (str_replace ''ab'' ''R'' None ''xaby'')
   \<and> files \<lparr>files = [fix_db_path_production_file_path \<mapsto> fix_db_path_production_old_text],
            argv = [], environ = Map.empty\<rparr> fix_db_path_production_file_path
       = Some fix_db_path_production_old_text
   \<and> occurrences fix_db_path_production_old_text fix_db_path_production_old_text = 1
   \<and> (\<exists>out. written (fix_db_path_production
                \<lparr>files = [fix_db_path_production_file_path \<mapsto> fix_db_path_production_old_text],
                 argv = [], environ = Map.empty\<rparr>)
               = [(fix_db_path_production_file_path, out)]
            \<and> files_after (fix_db_path_production
                \<lparr>files = [fix_db_path_production_file_path \<mapsto> fix_db_path_production_old_text],
                 argv = [], environ = Map.empty\<rparr>) fix_db_path_production_file_path
               = Some out
            \<and> str_in fix_db_path_production_new_text out)"
proof -
  have short: "occurrences ''ab'' ''xaby'' = 1"
    by (simp add: startswith_def)
  have inside: "files \<lparr>files = [fix_db_path_production_file_path \<mapsto> fix_db_path_production_old_text],
            argv = [], environ = Map.empty\<rparr> fix_db_path_production_file_path
       = Some fix_db_path_production_old_text"
    by simp
  have once: "occurrences fix_db_path_production_old_text fix_db_path_production_old_text = 1"
    by (simp add: fix_db_path_production_old_text_def startswith_def)
  from short inside once fix_db_path_production_roundtrip [OF short inside once, of "''R''"]
  show ?thesis by blast
qed

section \<open>A locator that occurs more than once\<close>

text \<open>
  C4, as the claim states it, fails: on a file in which the locator line occurs twice,
  \<^verbatim>\<open>add_expense_notes_coins.py\<close> does not fail. It replaces the first occurrence,
  leaves the second, prints its success line and ends with exit status 0.
\<close>

theorem add_expense_notes_coins_two_matches:
  "occurrences add_expense_notes_coins_old_line
     (add_expense_notes_coins_old_line @ ''\<newline>'' @ add_expense_notes_coins_old_line) = 2
   \<and> add_expense_notes_coins
       \<lparr>files = [add_expense_notes_coins_file_path \<mapsto>
          add_expense_notes_coins_old_line @ ''\<newline>'' @ add_expense_notes_coins_old_line],
        argv = [], environ = Map.empty\<rparr>
     = \<lparr>files_after = [add_expense_notes_coins_file_path \<mapsto>
          add_expense_notes_coins_new_lines @ ''\<newline>'' @ add_expense_notes_coins_old_line],
        written = [(add_expense_notes_coins_file_path,
          add_expense_notes_coins_new_lines @ ''\<newline>'' @ add_expense_notes_coins_old_line)],
        printed = [check_mark_button @ '' Added notes and coins fields to expenses table!''],
        status = Exit 0\<rparr>"
  by (simp add: add_expense_notes_coins_def wrote_def add_expense_notes_coins_patch_def
      add_expense_notes_coins_old_line_def add_expense_notes_coins_new_lines_def
      str_replace.simps startswith_def)

text \<open>
  C4, amended. When the locator occurs more than once in the file,
  \<^verbatim>\<open>add_expense_notes_coins.py\<close> raises no failure: it replaces the leftmost
  occurrence (no occurrence starts before it) by the notes/coins block, writes the text
  before and after that occurrence back as it was, prints its success line and ends with
  exit status 0.
\<close>

theorem add_expense_notes_coins_replaces_leftmost:
  assumes "files w add_expense_notes_coins_file_path = Some c"
    and "1 < occurrences add_expense_notes_coins_old_line c"
  shows "\<exists>pre post.
           c = pre @ add_expense_notes_coins_old_line @ post
         \<and> \<not> str_in add_expense_notes_coins_old_line
               (pre @ butlast add_expense_notes_coins_old_line)
         \<and> written (add_expense_notes_coins w)
             = [(add_expense_notes_coins_file_path,
                 pre @ add_expense_notes_coins_new_lines @ post)]
         \<and> printed (add_expense_notes_coins w)
             = [check_mark_button @ '' Added notes and coins fields to expenses table!'']
         \<and> status (add_expense_notes_coins w) = Exit 0"
proof -
  have "str_in add_expense_notes_coins_old_line c"
    using assms(2) by (simp add: occurrences_pos)
  then obtain pre post where c: "c = pre @ add_expense_notes_coins_old_line @ post"
    and n: "\<not> str_in add_expense_notes_coins_old_line
               (pre @ butlast add_expense_notes_coins_old_line)"
    using str_in_leftmost [OF old_line_nonempty] by blast
  have "add_expense_notes_coins_patch c
          = pre @ add_expense_notes_coins_new_lines
              @ str_replace add_expense_notes_coins_old_line add_expense_notes_coins_new_lines
                  (dec_count (Some 1)) post"
    unfolding c add_expense_notes_coins_patch_def
    using old_line_nonempty n by (rule str_replace_leftmost) simp
  then have "add_expense_notes_coins_patch c = pre @ add_expense_notes_coins_new_lines @ post"
    by (simp add: str_replace.simps [of _ _ "Some 0"])
  then have "written (add_expense_notes_coins w)
             = [(add_expense_notes_coins_file_path,
                 pre @ add_expense_notes_coins_new_lines @ post)]
         \<and> printed (add_expense_notes_coins w)
             = [check_mark_button @ '' Added notes and coins fields to expenses table!'']
         \<and> status (add_expense_notes_coins w) = Exit 0"
    using assms(1) by (simp add: add_expense_notes_coins_def wrote_def)
  with c n show ?thesis by blast
qed

text \<open>The theorem at the file with two locator lines.\<close>

theorem add_expense_notes_coins_replaces_leftmost_witness:
  "files \<lparr>files = [add_expense_notes_coins_file_path \<mapsto>
          add_expense_notes_coins_old_line @ ''\<newline>'' @ add_expense_notes_coins_old_line],
        argv = [], environ = Map.empty\<rparr> add_expense_notes_coins_file_path
     = Some (add_expense_notes_coins_old_line @ ''\<newline>'' @ add_expense_notes_coins_old_line)
   \<and> 1 < occurrences add_expense_notes_coins_old_line
         (add_expense_notes_coins_old_line @ ''\<newline>'' @ add_expense_notes_coins_old_line)
   \<and> (\<exists>pre post.
           add_expense_notes_coins_old_line @ ''\<newline>'' @ add_expense_notes_coins_old_line
             = pre @ add_expense_notes_coins_old_line @ post
         \<and> written (add_expense_notes_coins
               \<lparr>files = [add_expense_notes_coins_file_path \<mapsto>
                  add_expense_notes_coins_old_line @ ''\<newline>''
                    @ add_expense_notes_coins_old_line],
                argv = [], environ = Map.empty\<rparr>)
             = [(add_expense_notes_coins_file_path,
                 pre @ add_expense_notes_coins_new_lines @ post)])"
proof -
  have inside: "files \<lparr>files = [add_expense_notes_coins_file_path \<mapsto>
          add_expense_notes_coins_old_line @ ''\<newline>'' @ add_expense_notes_coins_old_line],
        argv = [], environ = Map.empty\<rparr> add_expense_notes_coins_file_path
     = Some (add_expense_notes_coins_old_line @ ''\<newline>'' @ add_expense_notes_coins_old_line)"
    by simp
  have twice: "1 < occurrences add_expense_notes_coins_old_line
         (add_expense_notes_coins_old_line @ ''\<newline>'' @ add_expense_notes_coins_old_line)"
    by (simp add: add_expense_notes_coins_old_line_def startswith_def)
  from inside twice add_expense_notes_coins_replaces_leftmost [OF inside twice]
  show ?thesis by blast
qed

section \<open>A locator that does not occur\<close>





section \<open>Reading and writing the file\<close>




section \<open>How a script ends when its target is not found\<close>




section \<open>What \<^verbatim>\<open>remove_duplicates.py\<close> keeps\<close>



section \<open>What \<^verbatim>\<open>fix_expenses_table.py\<close> leaves in place\<close>



section \<open>Two runs on the same file\<close>



































end
